theory Spec2Isabelle
  imports Main
begin

section \<open>Python values used by \<open>eoapi/raster/app.py\<close>\<close>

text \<open>
  A Python \<open>str\<close> is a sequence of Unicode code points, each in \<open>range(0x110000)\<close>; lone
  surrogates (\<open>0xD800\<close> to \<open>0xDFFF\<close>) are legal elements of a \<open>str\<close>. A \<open>bytes\<close> object
  is a sequence of integers in \<open>range(256)\<close>. Both are lists of naturals here; a literal
  of the source is written \<open>lit ''...''\<close>, the code points of its ASCII characters.
  Python's \<open>int\<close> is unbounded, hence \<open>int\<close>.
\<close>

type_synonym str = "nat list"
type_synonym bytes = "nat list"

abbreviation lit :: "string \<Rightarrow> str" where
  "lit s \<equiv> map of_char s"

datatype error = UnicodeEncodeError | KeyError | ValueError

text \<open>Sequencing of computations that may raise: the first exception wins.\<close>

fun and_then :: "error + 'a \<Rightarrow> ('a \<Rightarrow> error + 'b) \<Rightarrow> error + 'b" where
  "and_then (Inl e) f = Inl e"
| "and_then (Inr x) f = f x"

text \<open>
  The decimal digits of a natural number, most significant first, and the decimal string of
  an \<open>int\<close>: the digits of its magnitude, after a minus sign for a negative number.
\<close>

fun digits :: "nat \<Rightarrow> str" where
  "digits n = (if n < 10 then [48 + n] else digits (n div 10) @ [48 + n mod 10])"

declare digits.simps [simp del]

definition decimal :: "int \<Rightarrow> str" where
  "decimal i = (if i < 0 then 45 # digits (nat (- i)) else digits (nat i))"

text \<open>
  \<open>str(band)\<close> for an \<open>int\<close>. The interpreter limits the conversion of an \<open>int\<close> to a
  decimal string: with the default setting, \<open>sys.int_info.default_max_str_digits = 4300\<close>,
  a number of more digits (the sign not counted) raises \<open>ValueError\<close>.
\<close>

definition int_max_str_digits :: nat where
  "int_max_str_digits = 4300"

definition str_int :: "int \<Rightarrow> error + str" where
  "str_int i =
     (if int_max_str_digits < length (digits (nat \<bar>i\<bar>)) then Inl ValueError
      else Inr (decimal i))"

text \<open>
  The list comprehension \<open>[str(band) for band in bands]\<close>: the bands are converted in
  order, and the first conversion that raises ends the comprehension.
\<close>

fun str_bands :: "int list \<Rightarrow> error + str list" where
  "str_bands [] = Inr []"
| "str_bands (band # bands) =
     and_then (str_int band) (\<lambda>s. and_then (str_bands bands) (\<lambda>ss. Inr (s # ss)))"

text \<open>\<open>sep.join(parts)\<close>.\<close>

fun join :: "str \<Rightarrow> str list \<Rightarrow> str" where
  "join sep [] = []"
| "join sep [x] = x"
| "join sep (x # y # ys) = x @ sep @ join sep (y # ys)"

text \<open>
  A \<open>dict\<close> keeps its keys in insertion order, which \<open>urlencode\<close> observes: an association
  list. \<open>d[k] = v\<close> replaces the value of an existing key in place and appends a new key.
\<close>

type_synonym ('k, 'v) dict = "('k \<times> 'v) list"

fun setitem :: "('k, 'v) dict \<Rightarrow> 'k \<Rightarrow> 'v \<Rightarrow> ('k, 'v) dict" where
  "setitem [] k v = [(k, v)]"
| "setitem ((k', v') # d) k v =
     (if k' = k then (k, v) # d else (k', v') # setitem d k v)"

section \<open>The standard library's \<open>urllib.parse.urlencode\<close>\<close>

text \<open>
  \<open>string.encode('utf-8', 'strict')\<close>: one to four bytes per code point; a surrogate has
  no encoding and raises \<open>UnicodeEncodeError\<close>.
\<close>

definition utf8_char :: "nat \<Rightarrow> error + bytes" where
  "utf8_char c =
     (if c < 0x80 then Inr [c]
      else if c < 0x800 then Inr [0xC0 + c div 64, 0x80 + c mod 64]
      else if 0xD800 \<le> c \<and> c < 0xE000 then Inl UnicodeEncodeError
      else if c < 0x10000 then
        Inr [0xE0 + c div 4096, 0x80 + (c div 64) mod 64, 0x80 + c mod 64]
      else
        Inr [0xF0 + c div 262144, 0x80 + (c div 4096) mod 64,
             0x80 + (c div 64) mod 64, 0x80 + c mod 64])"

fun encode_utf8 :: "str \<Rightarrow> error + bytes" where
  "encode_utf8 [] = Inr []"
| "encode_utf8 (c # cs) =
     and_then (utf8_char c) (\<lambda>b. and_then (encode_utf8 cs) (\<lambda>bs. Inr (b @ bs)))"

text \<open>\<open>_ALWAYS_SAFE\<close>: the unreserved characters of RFC 3986.\<close>

definition ALWAYS_SAFE :: bytes where
  "ALWAYS_SAFE =
     lit ''ABCDEFGHIJKLMNOPQRSTUVWXYZabcdefghijklmnopqrstuvwxyz0123456789_.-~''"

text \<open>One digit of \<open>'%{:02X}'.format(b)\<close>.\<close>

definition hex_digit :: "nat \<Rightarrow> nat" where
  "hex_digit d = (if d < 10 then 48 + d else 55 + d)"

text \<open>\<open>_Quoter(safe).__missing__(b)\<close>: a safe byte stands for itself, any other is \<open>%XX\<close>.\<close>

definition quoter :: "bytes \<Rightarrow> nat \<Rightarrow> str" where
  "quoter safe b =
     (if b \<in> set (ALWAYS_SAFE @ safe) then [b]
      else [37, hex_digit (b div 16), hex_digit (b mod 16)])"

text \<open>\<open>bs.rstrip(chars)\<close>: drop the trailing bytes that occur in \<open>chars\<close>.\<close>

definition rstrip :: "bytes \<Rightarrow> bytes \<Rightarrow> bytes" where
  "rstrip bs chars = rev (dropWhile (\<lambda>b. b \<in> set chars) (rev bs))"

text \<open>
  \<open>quote_from_bytes(bs, safe)\<close> with \<open>safe\<close> a \<open>str\<close>: the non-ASCII characters of \<open>safe\<close>
  are ignored. When nothing is left after stripping safe bytes, \<open>bs.decode()\<close> is returned:
  every byte is then ASCII and decodes to the code point of the same value.
\<close>

definition quote_from_bytes :: "bytes \<Rightarrow> str \<Rightarrow> str" where
  "quote_from_bytes bs safe =
     (if bs = [] then []
      else
        let safe = filter (\<lambda>c. c < 128) safe in
        if rstrip bs (ALWAYS_SAFE @ safe) = [] then bs
        else concat (map (quoter safe) bs))"

definition quote :: "str \<Rightarrow> str \<Rightarrow> error + str" where
  "quote string safe =
     (if string = [] then Inr string
      else and_then (encode_utf8 string) (\<lambda>bs. Inr (quote_from_bytes bs safe)))"

text \<open>\<open>string.replace(' ', '+')\<close>.\<close>

definition replace_space :: "str \<Rightarrow> str" where
  "replace_space s = map (\<lambda>c. if c = 32 then 43 else c) s"

definition quote_plus :: "str \<Rightarrow> str \<Rightarrow> error + str" where
  "quote_plus string safe =
     (if 32 \<notin> set string then quote string safe
      else and_then (quote string (safe @ [32])) (\<lambda>s. Inr (replace_space s)))"

text \<open>
  \<open>urlencode(query, safe=safe)\<close> for a \<open>dict\<close> of \<open>str\<close> keys and \<open>str\<close> values, with the
  defaults \<open>doseq=False\<close> and \<open>quote_via=quote_plus\<close>: each item is rendered \<open>k=v\<close>, both
  sides quoted, and the items are joined by \<open>&\<close>.
\<close>

fun urlencode_items :: "(str, str) dict \<Rightarrow> str \<Rightarrow> error + str list" where
  "urlencode_items [] safe = Inr []"
| "urlencode_items ((k, v) # query) safe =
     and_then (quote_plus k safe) (\<lambda>k'.
     and_then (quote_plus v safe) (\<lambda>v'.
     and_then (urlencode_items query safe) (\<lambda>l. Inr ((k' @ lit ''='' @ v') # l))))"

definition urlencode :: "(str, str) dict \<Rightarrow> str \<Rightarrow> error + str" where
  "urlencode query safe =
     and_then (urlencode_items query safe) (\<lambda>l. Inr (join (lit ''&'') l))"

section \<open>The subdataset parameters of the application\<close>

text \<open>
  A value of the \<open>reader_options\<close> dictionary: the subdataset name is a \<open>str\<close>, the band
  list stays a list of \<open>int\<close>.
\<close>

datatype option_value = StrValue str | IntListValue "int list"

text \<open>
  \<open>ReaderParams.__init__\<close>: the value of \<open>self.reader_options\<close>. An \<open>if x:\<close> on an
  \<open>Optional\<close> string or list is taken when \<open>x\<close> is neither \<open>None\<close> nor empty.
\<close>

definition ReaderParams :: "str option \<Rightarrow> int list option \<Rightarrow> (str, option_value) dict" where
  "ReaderParams subdataset_name subdataset_bands =
     (let params = [];
          params = (case subdataset_name of
                      Some name \<Rightarrow>
                        if name \<noteq> [] then setitem params (lit ''subdataset_name'') (StrValue name)
                        else params
                    | None \<Rightarrow> params);
          params = (case subdataset_bands of
                      Some bands \<Rightarrow>
                        if bands \<noteq> []
                        then setitem params (lit ''subdataset_bands'') (IntListValue bands)
                        else params
                    | None \<Rightarrow> params)
      in params)"

text \<open>\<open>SdsParams\<close>, the path dependency of the \<open>/dataset\<close> endpoints.\<close>

definition SdsParams :: "str \<Rightarrow> str option \<Rightarrow> int list option \<Rightarrow> error + str" where
  "SdsParams url subdataset_name subdataset_bands =
     (let vrt_params = [];
          vrt_params = (case subdataset_name of
                          Some name \<Rightarrow>
                            if name \<noteq> [] then setitem vrt_params (lit ''sd_name'') name
                            else vrt_params
                        | None \<Rightarrow> vrt_params)
      in and_then
           (case subdataset_bands of
              Some bands \<Rightarrow>
                if bands \<noteq> [] then
                  and_then (str_bands bands) (\<lambda>strs.
                    Inr (setitem vrt_params (lit ''bands'') (join (lit '','') strs)))
                else Inr vrt_params
            | None \<Rightarrow> Inr vrt_params)
           (\<lambda>vrt_params.
              if vrt_params \<noteq> [] then
                and_then (urlencode vrt_params (lit '','')) (\<lambda>params.
                  Inr (lit ''vrt:///vsicurl/'' @ url @ lit ''?'' @ params))
              else Inr url))"

text \<open>
  \<open>ItemAssetIdParams\<close>. The item comes from \<open>get_stac_item\<close>, a database lookup of
  another package: its \<open>assets\<close> dictionary is a parameter here. An asset is described by
  its \<open>href\<close> and by what its \<open>get_absolute_href()\<close> returns, a string or \<open>None\<close>.
  \<open>item.assets[asset_id]\<close> raises \<open>KeyError\<close> for an unknown asset, and \<open>a or b\<close> is
  \<open>a\<close> unless \<open>a\<close> is \<open>None\<close> or empty.
\<close>

record asset =
  href :: str
  absolute_href :: "str option"

definition ItemAssetIdParams ::
  "(str \<rightharpoonup> asset) \<Rightarrow> str \<Rightarrow> str option \<Rightarrow> int list option \<Rightarrow> error + str" where
  "ItemAssetIdParams assets asset_id subdataset_name subdataset_bands =
     (case assets asset_id of
        None \<Rightarrow> Inl KeyError
      | Some asset_info \<Rightarrow>
          let url = (case absolute_href asset_info of
                       Some a \<Rightarrow> if a \<noteq> [] then a else href asset_info
                     | None \<Rightarrow> href asset_info);
              vrt_params = [];
              vrt_params = (case subdataset_name of
                              Some name \<Rightarrow>
                                if name \<noteq> [] then setitem vrt_params (lit ''sd_name'') name
                                else vrt_params
                            | None \<Rightarrow> vrt_params)
          in and_then
               (case subdataset_bands of
                  Some bands \<Rightarrow>
                    if bands \<noteq> [] then
                      and_then (str_bands bands) (\<lambda>strs.
                        Inr (setitem vrt_params (lit ''bands'') (join (lit '','') strs)))
                    else Inr vrt_params
                | None \<Rightarrow> Inr vrt_params)
               (\<lambda>vrt_params.
                  if vrt_params \<noteq> [] then
                    and_then (urlencode vrt_params (lit '','')) (\<lambda>params.
                      Inr (lit ''vrt:///vsicurl/'' @ url @ lit ''?'' @ params))
                  else Inr url))"

text \<open>
  \<open>CustomReader\<close>: the \<open>input\<close> attribute of \<open>rio_tiler.io.Reader\<close> and the two attributes
  the class adds. \<open>__attrs_post_init__\<close> rewrites \<open>self.input\<close>; the call of the parent's
  \<open>__attrs_post_init__\<close> that follows opens the dataset and is outside this model.
\<close>

record CustomReader =
  input :: str
  subdataset_name :: "str option"
  subdataset_bands :: "int list option"

definition attrs_post_init :: "CustomReader \<Rightarrow> error + CustomReader" where
  "attrs_post_init self =
     (let vrt_params = [];
          vrt_params = (case subdataset_name self of
                          Some name \<Rightarrow>
                            if name \<noteq> [] then setitem vrt_params (lit ''sd_name'') name
                            else vrt_params
                        | None \<Rightarrow> vrt_params)
      in and_then
           (case subdataset_bands self of
              Some bands \<Rightarrow>
                if bands \<noteq> [] then
                  and_then (str_bands bands) (\<lambda>strs.
                    Inr (setitem vrt_params (lit ''bands'') (join (lit '','') strs)))
                else Inr vrt_params
            | None \<Rightarrow> Inr vrt_params)
           (\<lambda>vrt_params.
              if vrt_params \<noteq> [] then
                and_then (urlencode vrt_params (lit '','')) (\<lambda>params.
                  Inr (self\<lparr>input :=
                         lit ''vrt:///vsicurl/'' @ input self @ lit ''?'' @ params\<rparr>))
              else Inr self))"

text \<open>
  The keyword call \<open>CustomReader(url, **reader_options)\<close>: the initialiser that \<open>attrs\<close>
  generates from the class body stores each keyword in the attribute of its name, an
  attribute without a keyword takes its default \<open>None\<close>, and \<open>__attrs_post_init__\<close> runs
  last. The result is the reader, or the exception of the post-initialiser.
\<close>

definition CustomReader_init :: "str \<Rightarrow> (str, option_value) dict \<Rightarrow> error + CustomReader" where
  "CustomReader_init url reader_options =
     attrs_post_init
       \<lparr>input = url,
        subdataset_name =
          (case map_of reader_options (lit ''subdataset_name'') of
             Some (StrValue name) \<Rightarrow> Some name
           | _ \<Rightarrow> None),
        subdataset_bands =
          (case map_of reader_options (lit ''subdataset_bands'') of
             Some (IntListValue bands) \<Rightarrow> Some bands
           | _ \<Rightarrow> None)\<rparr>"

section \<open>The endpoints that take a subdataset selector\<close>

text \<open>
  What one request does with its selector: the options dictionary built for the reader's
  constructor, and the locator that the raster reader finally opens.

  The \<open>/dataset\<close> endpoints are \<open>TilerFactory(reader=Reader, path_dependency=SdsParams)\<close>:
  the path dependency returns the locator, \<open>Reader\<close> opens it, and no reader dependency is
  configured, so no options are built.

  The STAC item, collection and search endpoints are configured with
  \<open>reader_dependency=ReaderParams\<close> and with \<open>PgSTACReader\<close> or \<open>PGSTACBackend\<close>, whose
  asset reader is \<open>CustomReader\<close> (the \<open>reader\<close> attribute of \<open>PgSTACReader\<close> and of
  \<open>CustomSTACReader\<close>). The factories and readers of the tiler packages hand
  \<open>reader_options\<close> on, and each asset is opened as \<open>CustomReader(url, **reader_options)\<close>.
\<close>

record handled =
  options_bag :: "(str, option_value) dict"
  locator :: "error + str"

definition dataset_request :: "str \<Rightarrow> str option \<Rightarrow> int list option \<Rightarrow> handled" where
  "dataset_request url name bands =
     \<lparr>options_bag = [], locator = SdsParams url name bands\<rparr>"

definition item_request :: "str \<Rightarrow> str option \<Rightarrow> int list option \<Rightarrow> handled" where
  "item_request url name bands =
     (let reader_options = ReaderParams name bands
      in \<lparr>options_bag = reader_options,
          locator = map_sum id input (CustomReader_init url reader_options)\<rparr>)"

text \<open>
  The two encodings of a selector: a request has built an options bag when the dictionary
  is not empty, and has rewritten the locator when the reader opens something else than
  the base locator.
\<close>

definition bag_built :: "handled \<Rightarrow> bool" where
  "bag_built h = (options_bag h \<noteq> [])"

definition locator_rewritten :: "str \<Rightarrow> handled \<Rightarrow> bool" where
  "locator_rewritten url h = (case locator h of Inl e \<Rightarrow> False | Inr l \<Rightarrow> l \<noteq> url)"

text \<open>Python's truth value of an \<open>Optional\<close> string or list.\<close>

fun truthy :: "'a list option \<Rightarrow> bool" where
  "truthy None = False"
| "truthy (Some xs) = (xs \<noteq> [])"

text \<open>
  What reaches these functions from a request. A name is decoded from the query string,
  where undecodable bytes are replaced, so it holds no surrogate code point, the one kind
  of code point that UTF-8 cannot encode. A band has passed the validation of the request,
  which refuses an integer of more than 4300 digits, so its conversion stays within the
  interpreter's limit.
\<close>

definition surrogate :: "nat \<Rightarrow> bool" where
  "surrogate c = (0xD800 \<le> c \<and> c < 0xE000)"

fun has_surrogate :: "str option \<Rightarrow> bool" where
  "has_surrogate None = False"
| "has_surrogate (Some name) = list_ex surrogate name"

definition within_str_limit :: "int \<Rightarrow> bool" where
  "within_str_limit i = (length (digits (nat \<bar>i\<bar>)) \<le> int_max_str_digits)"

fun bands_within_limit :: "int list option \<Rightarrow> bool" where
  "bands_within_limit None = True"
| "bands_within_limit (Some bands) = list_all within_str_limit bands"

section \<open>Quoting leaves unreserved text alone\<close>

lemma ALWAYS_SAFE_ascii: "c \<in> set ALWAYS_SAFE \<Longrightarrow> c < 128"
  by (auto simp: ALWAYS_SAFE_def)

lemma digit_ALWAYS_SAFE: "48 \<le> c \<Longrightarrow> c \<le> 57 \<Longrightarrow> c \<in> set ALWAYS_SAFE"
proof -
  assume "48 \<le> c" "c \<le> 57"
  then have "c = 48 \<or> c = 49 \<or> c = 50 \<or> c = 51 \<or> c = 52 \<or> c = 53 \<or> c = 54 \<or> c = 55
    \<or> c = 56 \<or> c = 57" by presburger
  then show ?thesis by (auto simp: ALWAYS_SAFE_def)
qed

lemma minus_ALWAYS_SAFE: "45 \<in> set ALWAYS_SAFE"
  by (simp add: ALWAYS_SAFE_def)

lemma space_not_ALWAYS_SAFE: "32 \<notin> set ALWAYS_SAFE"
  by (simp add: ALWAYS_SAFE_def)

lemma encode_utf8_ascii: "\<forall>c\<in>set s. c < 128 \<Longrightarrow> encode_utf8 s = Inr s"
  by (induction s) (simp_all add: utf8_char_def)

lemma rstrip_Nil_iff: "rstrip bs chars = [] \<longleftrightarrow> set bs \<subseteq> set chars"
  by (auto simp: rstrip_def)

lemma quote_unreserved:
  assumes "\<forall>c\<in>set s. c \<in> set ALWAYS_SAFE \<or> c = 44"
  shows "quote s (lit '','') = Inr s"
proof (cases "s = []")
  case True
  then show ?thesis by (simp add: quote_def)
next
  case False
  from assms have "\<forall>c\<in>set s. c < 128"
    using ALWAYS_SAFE_ascii by fastforce
  then have enc: "encode_utf8 s = Inr s" by (rule encode_utf8_ascii)
  from assms have "set s \<subseteq> set (ALWAYS_SAFE @ filter (\<lambda>c. c < 128) (lit '',''))"
    by auto
  then have "quote_from_bytes s (lit '','') = s"
    by (simp add: quote_from_bytes_def rstrip_Nil_iff Let_def)
  with enc False show ?thesis by (simp add: quote_def)
qed

lemma quote_plus_unreserved:
  assumes "\<forall>c\<in>set s. c \<in> set ALWAYS_SAFE \<or> c = 44"
  shows "quote_plus s (lit '','') = Inr s"
proof -
  from assms space_not_ALWAYS_SAFE have "32 \<notin> set s" by auto
  with quote_unreserved [OF assms] show ?thesis by (simp add: quote_plus_def)
qed

lemma set_digits: "c \<in> set (digits n) \<Longrightarrow> 48 \<le> c \<and> c \<le> 57"
proof (induction n rule: digits.induct)
  case (1 n)
  show ?case
  proof (cases "n < 10")
    case True
    with "1.prems" show ?thesis by (simp add: digits.simps [of n])
  next
    case False
    with "1.prems" have "c \<in> set (digits (n div 10)) \<or> c = 48 + n mod 10"
      by (auto simp: digits.simps [of n])
    then show ?thesis
    proof
      assume "c \<in> set (digits (n div 10))"
      with False "1.IH" show ?thesis by simp
    next
      assume "c = 48 + n mod 10"
      moreover have "n mod 10 < 10" by simp
      ultimately show ?thesis by linarith
    qed
  qed
qed

text \<open>The digits are the decimal representation: reading them back gives the number.\<close>

lemma digits_value: "foldl (\<lambda>a d. 10 * a + (d - 48)) 0 (digits n) = n"
proof (induction n rule: digits.induct)
  case (1 n)
  show ?case
  proof (cases "n < 10")
    case True
    then show ?thesis by (simp add: digits.simps [of n])
  next
    case False
    with "1.IH" have "foldl (\<lambda>a d. 10 * a + (d - 48)) 0 (digits (n div 10)) = n div 10"
      by simp
    with False show ?thesis by (simp add: digits.simps [of n])
  qed
qed

text \<open>A number has at most \<open>k\<close> digits exactly when it is below \<open>10 ^ k\<close>.\<close>

lemma length_digits_le: "0 < k \<Longrightarrow> length (digits n) \<le> k \<longleftrightarrow> n < 10 ^ k"
proof (induction n arbitrary: k rule: digits.induct)
  case (1 n)
  show ?case
  proof (cases "n < 10")
    case True
    have "(10::nat) ^ 1 \<le> 10 ^ k"
      using "1.prems" by (intro power_increasing) simp_all
    with True have "n < 10 ^ k" by simp
    with True "1.prems" show ?thesis by (simp add: digits.simps [of n])
  next
    case False
    show ?thesis
    proof (cases k)
      case 0
      with "1.prems" show ?thesis by simp
    next
      case (Suc j)
      show ?thesis
      proof (cases "j = 0")
        case True
        have "0 < length (digits (n div 10))"
          by (simp add: digits.simps [of "n div 10"])
        with False True Suc show ?thesis by (simp add: digits.simps [of n])
      next
        case j: False
        with False "1.IH" [of j]
        have "length (digits (n div 10)) \<le> j \<longleftrightarrow> n div 10 < 10 ^ j" by simp
        moreover have "n div 10 < 10 ^ j \<longleftrightarrow> n < 10 * 10 ^ j"
          by (simp add: less_mult_imp_div_less div_less_iff_less_mult mult.commute)
        ultimately show ?thesis
          using False Suc by (simp add: digits.simps [of n])
      qed
    qed
  qed
qed

lemma within_str_limit_iff: "within_str_limit i \<longleftrightarrow> \<bar>i\<bar> < 10 ^ 4300"
proof -
  have "within_str_limit i \<longleftrightarrow> nat \<bar>i\<bar> < 10 ^ int_max_str_digits"
    unfolding within_str_limit_def
    by (rule length_digits_le) (simp add: int_max_str_digits_def)
  also have "\<dots> \<longleftrightarrow> \<bar>i\<bar> < 10 ^ int_max_str_digits"
    by (simp only: nat_less_iff abs_ge_zero of_nat_power of_nat_numeral)
  finally show ?thesis
    by (simp only: int_max_str_digits_def)
qed

lemma str_int_within: "within_str_limit i \<Longrightarrow> str_int i = Inr (decimal i)"
  by (simp add: str_int_def within_str_limit_def)

lemma str_int_over: "\<not> within_str_limit i \<Longrightarrow> str_int i = Inl ValueError"
  by (simp add: str_int_def within_str_limit_def)

lemma str_bands_within:
  "list_all within_str_limit bands \<Longrightarrow> str_bands bands = Inr (map decimal bands)"
  by (induction bands) (simp_all add: str_int_within)

lemma str_bands_over:
  "\<not> list_all within_str_limit bands \<Longrightarrow> str_bands bands = Inl ValueError"
proof (induction bands)
  case Nil
  then show ?case by simp
next
  case (Cons b bs)
  show ?case
  proof (cases "within_str_limit b")
    case True
    with Cons show ?thesis by (simp add: str_int_within)
  next
    case False
    then show ?thesis by (simp add: str_int_over)
  qed
qed

lemma set_decimal: "c \<in> set (decimal i) \<Longrightarrow> c \<in> set ALWAYS_SAFE"
  using set_digits [of c] digit_ALWAYS_SAFE minus_ALWAYS_SAFE
  by (auto simp: decimal_def split: if_splits)

lemma set_join: "c \<in> set (join sep xs) \<Longrightarrow> c \<in> set sep \<or> (\<exists>x\<in>set xs. c \<in> set x)"
  by (induction sep xs rule: join.induct) auto

lemma band_list_unreserved:
  "\<forall>c\<in>set (join (lit '','') (map decimal bands)). c \<in> set ALWAYS_SAFE \<or> c = 44"
proof
  fix c assume "c \<in> set (join (lit '','') (map decimal bands))"
  then have "c \<in> set (lit '','') \<or> (\<exists>x\<in>set (map decimal bands). c \<in> set x)"
    by (rule set_join)
  then show "c \<in> set ALWAYS_SAFE \<or> c = 44"
    using set_decimal by auto
qed

lemma quote_plus_band_list:
  "quote_plus (join (lit '','') (map decimal bands)) (lit '','') =
     Inr (join (lit '','') (map decimal bands))"
  by (rule quote_plus_unreserved [OF band_list_unreserved])

lemma quote_plus_key_sd_name: "quote_plus (lit ''sd_name'') (lit '','') = Inr (lit ''sd_name'')"
  by (rule quote_plus_unreserved) (simp add: ALWAYS_SAFE_def)

lemma quote_plus_key_bands: "quote_plus (lit ''bands'') (lit '','') = Inr (lit ''bands'')"
  by (rule quote_plus_unreserved) (simp add: ALWAYS_SAFE_def)

lemma urlencode_name_only:
  "urlencode [(lit ''sd_name'', name)] (lit '','') =
     and_then (quote_plus name (lit '','')) (\<lambda>q. Inr (lit ''sd_name='' @ q))"
  using quote_plus_key_sd_name
  by (cases "quote_plus name (lit '','')") (simp_all add: urlencode_def)

lemma urlencode_bands_only:
  "urlencode [(lit ''bands'', join (lit '','') (map decimal bands))] (lit '','') =
     Inr (lit ''bands='' @ join (lit '','') (map decimal bands))"
  using quote_plus_key_bands quote_plus_band_list [of bands]
  by (simp add: urlencode_def)

lemma urlencode_name_bands:
  "urlencode [(lit ''sd_name'', name), (lit ''bands'', join (lit '','') (map decimal bands))]
       (lit '','') =
     and_then (quote_plus name (lit '','')) (\<lambda>q.
       Inr (lit ''sd_name='' @ q @ lit ''&bands='' @ join (lit '','') (map decimal bands)))"
  using quote_plus_key_sd_name quote_plus_key_bands quote_plus_band_list [of bands]
  by (cases "quote_plus name (lit '','')") (simp_all add: urlencode_def)

lemma SdsParams_neither: "SdsParams url None None = Inr url"
  by (simp add: SdsParams_def)

lemma SdsParams_empty_name: "SdsParams url (Some []) bands = SdsParams url None bands"
  by (simp add: SdsParams_def)

lemma SdsParams_empty_bands: "SdsParams url name (Some []) = SdsParams url name None"
  by (simp add: SdsParams_def)

lemma SdsParams_name_only:
  "SdsParams url (Some (c # cs)) None =
     and_then (quote_plus (c # cs) (lit '','')) (\<lambda>q.
       Inr (lit ''vrt:///vsicurl/'' @ url @ lit ''?sd_name='' @ q))"
  using urlencode_name_only [of "c # cs"]
  by (cases "quote_plus (c # cs) (lit '','')") (simp_all add: SdsParams_def)

lemma SdsParams_over_limit:
  "\<not> bands_within_limit bands \<Longrightarrow> SdsParams url name bands = Inl ValueError"
proof -
  assume "\<not> bands_within_limit bands"
  then obtain bl where bl: "bands = Some bl" "\<not> list_all within_str_limit bl"
    by (cases bands) simp_all
  then have "bl \<noteq> []" by auto
  with bl show ?thesis
    by (simp add: SdsParams_def str_bands_over)
qed

lemma SdsParams_bands_only:
  "list_all within_str_limit (b # bs) \<Longrightarrow>
   SdsParams url None (Some (b # bs)) =
     Inr (lit ''vrt:///vsicurl/'' @ url @ lit ''?bands='' @
          join (lit '','') (map decimal (b # bs)))"
  using urlencode_bands_only [of "b # bs"] str_bands_within [of "b # bs"]
  by (simp add: SdsParams_def)

lemma SdsParams_name_bands:
  "list_all within_str_limit (b # bs) \<Longrightarrow>
   SdsParams url (Some (c # cs)) (Some (b # bs)) =
     and_then (quote_plus (c # cs) (lit '','')) (\<lambda>q.
       Inr (lit ''vrt:///vsicurl/'' @ url @ lit ''?sd_name='' @ q @ lit ''&bands='' @
            join (lit '','') (map decimal (b # bs))))"
  using urlencode_name_bands [of "c # cs" "b # bs"] str_bands_within [of "b # bs"]
  by (cases "quote_plus (c # cs) (lit '','')") (simp_all add: SdsParams_def)

lemma map_sum_and_then:
  "map_sum id g (and_then r f) = and_then r (\<lambda>x. map_sum id g (f x))"
  by (cases r) simp_all

lemma map_sum_input_if:
  "map_sum id input
     (if c then and_then u (\<lambda>p. Inr (self\<lparr>input := f p\<rparr>)) else Inr self) =
   (if c then and_then u (\<lambda>p. Inr (f p)) else Inr (input self))"
  by (cases u) simp_all

lemma attrs_post_init_SdsParams:
  "map_sum id input (attrs_post_init self) =
     SdsParams (input self) (subdataset_name self) (subdataset_bands self)"
  by (simp add: attrs_post_init_def SdsParams_def Let_def map_sum_and_then map_sum_input_if)

lemma attrs_post_init_input:
  "map_sum id input
     (attrs_post_init \<lparr>input = url, subdataset_name = name, subdataset_bands = bands\<rparr>) =
   SdsParams url name bands"
  using attrs_post_init_SdsParams
    [of "\<lparr>input = url, subdataset_name = name, subdataset_bands = bands\<rparr>"]
  by simp

lemma ItemAssetIdParams_SdsParams:
  "assets aid = Some a \<Longrightarrow>
   ItemAssetIdParams assets aid name bands =
     SdsParams (case absolute_href a of Some (c # cs) \<Rightarrow> c # cs | _ \<Rightarrow> href a) name bands"
  by (simp add: ItemAssetIdParams_def SdsParams_def Let_def split: option.splits list.splits)

lemma ReaderParams_empty_name: "ReaderParams (Some []) bands = ReaderParams None bands"
  by (simp add: ReaderParams_def)

lemma ReaderParams_empty_bands: "ReaderParams name (Some []) = ReaderParams name None"
  by (simp add: ReaderParams_def)

section \<open>When the resolver raises\<close>

lemma utf8_char_Inl_iff: "utf8_char c = Inl e \<longleftrightarrow> e = UnicodeEncodeError \<and> surrogate c"
  by (auto simp: utf8_char_def surrogate_def)

lemma encode_utf8_surrogate:
  "list_ex surrogate s \<Longrightarrow> encode_utf8 s = Inl UnicodeEncodeError"
proof (induction s)
  case Nil
  then show ?case by simp
next
  case (Cons c s)
  show ?case
  proof (cases "utf8_char c")
    case (Inl e)
    then have "e = UnicodeEncodeError" by (simp add: utf8_char_Inl_iff)
    with Inl show ?thesis by simp
  next
    case (Inr b)
    then have "\<not> surrogate c"
      by (auto simp: utf8_char_def surrogate_def split: if_splits)
    with Cons Inr show ?thesis by simp
  qed
qed

lemma encode_utf8_no_surrogate:
  "\<not> list_ex surrogate s \<Longrightarrow> \<exists>bs. encode_utf8 s = Inr bs"
proof (induction s)
  case Nil
  then show ?case by simp
next
  case (Cons c s)
  then have "\<not> surrogate c" and "\<exists>bs. encode_utf8 s = Inr bs" by simp_all
  moreover from \<open>\<not> surrogate c\<close> have "\<exists>b. utf8_char c = Inr b"
    by (auto simp: utf8_char_def surrogate_def)
  ultimately show ?case by auto
qed

lemma quote_surrogate: "list_ex surrogate s \<Longrightarrow> quote s safe = Inl UnicodeEncodeError"
  using encode_utf8_surrogate [of s] by (auto simp: quote_def)

lemma quote_no_surrogate: "\<not> list_ex surrogate s \<Longrightarrow> \<exists>q. quote s safe = Inr q"
  using encode_utf8_no_surrogate [of s] by (auto simp: quote_def)

lemma quote_plus_surrogate:
  "list_ex surrogate s \<Longrightarrow> quote_plus s safe = Inl UnicodeEncodeError"
  by (simp add: quote_plus_def quote_surrogate)

lemma quote_plus_no_surrogate: "\<not> list_ex surrogate s \<Longrightarrow> \<exists>q. quote_plus s safe = Inr q"
  using quote_no_surrogate [of s safe] quote_no_surrogate [of s "safe @ [32]"]
  by (auto simp: quote_plus_def)

lemma SdsParams_shape:
  assumes "bands_within_limit bands"
  shows "SdsParams url name bands =
     (if truthy name then
        and_then (quote_plus (the name) (lit '','')) (\<lambda>q.
          Inr (lit ''vrt:///vsicurl/'' @ url @ lit ''?sd_name='' @ q @
               (if truthy bands
                then lit ''&bands='' @ join (lit '','') (map decimal (the bands)) else [])))
      else if truthy bands then
        Inr (lit ''vrt:///vsicurl/'' @ url @ lit ''?bands='' @
             join (lit '','') (map decimal (the bands)))
      else Inr url)"
proof -
  have none: "SdsParams url name bands =
      (if truthy name then
         and_then (quote_plus (the name) (lit '','')) (\<lambda>q.
           Inr (lit ''vrt:///vsicurl/'' @ url @ lit ''?sd_name='' @ q))
       else Inr url)" if "\<not> truthy bands"
  proof -
    from that have "SdsParams url name bands = SdsParams url name None"
      by (cases bands) (simp_all add: SdsParams_empty_bands)
    also have "\<dots> = (if truthy name then
         and_then (quote_plus (the name) (lit '','')) (\<lambda>q.
           Inr (lit ''vrt:///vsicurl/'' @ url @ lit ''?sd_name='' @ q))
       else Inr url)"
    proof (cases name)
      case None
      then show ?thesis by (simp add: SdsParams_neither)
    next
      case (Some n)
      then show ?thesis
        using SdsParams_name_only [of url "hd n" "tl n"]
        by (cases n) (simp_all add: SdsParams_empty_name SdsParams_neither)
    qed
    finally show ?thesis .
  qed
  show ?thesis
  proof (cases "truthy bands")
    case False
    with none show ?thesis by simp
  next
    case True
    then obtain b bs where bl: "bands = Some (b # bs)"
      by (cases bands; cases "the bands") simp_all
    with assms have lim: "list_all within_str_limit (b # bs)" by simp
    show ?thesis
    proof (cases name)
      case None
      with bl show ?thesis
        using SdsParams_bands_only [OF lim, of url] by simp
    next
      case (Some n)
      show ?thesis
      proof (cases n)
        case Nil
        with Some bl show ?thesis
          using SdsParams_bands_only [OF lim, of url] by (simp add: SdsParams_empty_name)
      next
        case (Cons c cs)
        with Some bl show ?thesis
          using SdsParams_name_bands [OF lim, of url c cs] by simp
      qed
    qed
  qed
qed

lemma SdsParams_surrogate:
  assumes "has_surrogate name" and "bands_within_limit bands"
  shows "SdsParams url name bands = Inl UnicodeEncodeError"
proof -
  from assms(1) obtain n where n: "name = Some n" "list_ex surrogate n"
    by (cases name) simp_all
  then have "n \<noteq> []" by auto
  with n show ?thesis
    by (simp add: SdsParams_shape [OF assms(2)] quote_plus_surrogate)
qed

lemma SdsParams_no_surrogate:
  assumes "\<not> has_surrogate name" and "bands_within_limit bands"
  shows "\<exists>r. SdsParams url name bands = Inr r \<and>
           (r = url \<or> (\<exists>p. r = lit ''vrt:///vsicurl/'' @ url @ lit ''?'' @ p))"
proof (cases "truthy name")
  case True
  then obtain n where n: "name = Some n" by (cases name) simp_all
  with assms(1) have "\<not> list_ex surrogate n" by simp
  then obtain q where "quote_plus n (lit '','') = Inr q"
    using quote_plus_no_surrogate by blast
  with True n show ?thesis
    by (simp add: SdsParams_shape [OF assms(2)])
next
  case False
  then show ?thesis
    by (simp add: SdsParams_shape [OF assms(2)])
qed

lemma SdsParams_longer:
  assumes "truthy name \<or> truthy bands" and "SdsParams url name bands = Inr r"
  shows "length url < length r"
proof -
  have lim: "bands_within_limit bands"
  proof (rule ccontr)
    assume "\<not> bands_within_limit bands"
    then have "SdsParams url name bands = Inl ValueError" by (rule SdsParams_over_limit)
    with assms(2) show False by simp
  qed
  show ?thesis
  proof (cases "truthy name")
    case True
    with assms(2) show ?thesis
      by (cases "quote_plus (the name) (lit '','')") (auto simp: SdsParams_shape [OF lim])
  next
    case False
    with assms show ?thesis
      by (auto simp: SdsParams_shape [OF lim])
  qed
qed

lemma ReaderParams_shape:
  "ReaderParams name bands =
     (case name of Some (c # cs) \<Rightarrow> [(lit ''subdataset_name'', StrValue (c # cs))] | _ \<Rightarrow> []) @
     (case bands of Some (b # bs) \<Rightarrow> [(lit ''subdataset_bands'', IntListValue (b # bs))]
      | _ \<Rightarrow> [])"
  by (simp add: ReaderParams_def split: option.splits list.splits)

lemma CustomReader_init_ReaderParams:
  "map_sum id input (CustomReader_init url (ReaderParams name bands)) =
     SdsParams url name bands"
proof -
  have "CustomReader_init url (ReaderParams name bands) =
      attrs_post_init
        \<lparr>input = url,
         subdataset_name = (if truthy name then name else None),
         subdataset_bands = (if truthy bands then bands else None)\<rparr>"
    by (simp add: CustomReader_init_def ReaderParams_shape split: option.splits list.splits)
  then have "map_sum id input (CustomReader_init url (ReaderParams name bands)) =
      SdsParams url (if truthy name then name else None) (if truthy bands then bands else None)"
    by (simp only: attrs_post_init_input)
  also have "\<dots> = SdsParams url name bands"
    by (cases name; cases bands)
      (auto simp: SdsParams_empty_name SdsParams_empty_bands)
  finally show ?thesis .
qed

lemma locator_rewritten_SdsParams:
  assumes "truthy name \<or> truthy bands"
  shows "locator_rewritten url \<lparr>options_bag = bag, locator = SdsParams url name bands\<rparr> \<longleftrightarrow>
     \<not> has_surrogate name \<and> bands_within_limit bands"
proof (cases "bands_within_limit bands")
  case False
  then show ?thesis
    by (simp add: locator_rewritten_def SdsParams_over_limit)
next
  case lim: True
  show ?thesis
  proof (cases "has_surrogate name")
    case True
    with lim show ?thesis
      by (simp add: locator_rewritten_def SdsParams_surrogate)
  next
    case False
    with lim obtain r where r: "SdsParams url name bands = Inr r"
      using SdsParams_no_surrogate by blast
    with assms have "length url < length r" by (rule SdsParams_longer)
    then have "r \<noteq> url" by auto
    with r False lim show ?thesis by (simp add: locator_rewritten_def)
  qed
qed

lemma ReaderParams_nonempty: "truthy name \<or> truthy bands \<Longrightarrow> ReaderParams name bands \<noteq> []"
  by (cases name; cases bands) (auto simp: ReaderParams_shape split: list.splits)

section \<open>The locator resolver and the reader-options builder\<close>

text \<open>
  C1. The base locator \<open>s3://bucket/a.tif\<close> with the name \<open>sd1\<close> and the bands \<open>[1, 2]\<close>
  resolves to exactly \<open>vrt:///vsicurl/s3://bucket/a.tif?sd_name=sd1&bands=1,2\<close>: both
  prefixes verbatim, \<open>sd_name\<close> before \<open>bands\<close>, the bands joined by commas.
\<close>

theorem resolve_example:
  "SdsParams (lit ''s3://bucket/a.tif'') (Some (lit ''sd1'')) (Some [1, 2]) =
     Inr (lit ''vrt:///vsicurl/s3://bucket/a.tif?sd_name=sd1&bands=1,2'')"
  by (simp add: SdsParams_def str_int_def int_max_str_digits_def decimal_def digits.simps
      urlencode_def quote_plus_def quote_def utf8_char_def quote_from_bytes_def rstrip_def
      ALWAYS_SAFE_def)

text \<open>
  C2. With the name and the bands both absent, every base locator is returned unchanged
  and the reader options are the empty dictionary.
\<close>

theorem absent_selector_is_identity:
  "SdsParams url None None = Inr url \<and> ReaderParams None None = []"
  by (simp add: SdsParams_def ReaderParams_def)

text \<open>
  C3. A non-empty band list is rendered as the query parameter \<open>bands=\<close> followed by the
  decimal strings of the bands in the caller's order, joined by literal commas that stay
  unencoded in the locator; \<open>[4, 3, 2]\<close> gives \<open>bands=4,3,2\<close>. The same holds after an
  \<open>sd_name\<close> parameter and in the post-initialiser of \<open>CustomReader\<close>. The bands are those
  of a request, each within the interpreter's limit on the digits of a conversion.
\<close>

theorem bands_comma_joined:
  "list_all within_str_limit (b # bs) \<Longrightarrow>
     SdsParams url None (Some (b # bs)) =
       Inr (lit ''vrt:///vsicurl/'' @ url @ lit ''?bands='' @
            join (lit '','') (map decimal (b # bs)))
   \<and> SdsParams url (Some (c # cs)) (Some (b # bs)) =
       and_then (quote_plus (c # cs) (lit '','')) (\<lambda>q.
         Inr (lit ''vrt:///vsicurl/'' @ url @ lit ''?sd_name='' @ q @ lit ''&bands='' @
              join (lit '','') (map decimal (b # bs))))
   \<and> map_sum id input
       (attrs_post_init
          \<lparr>input = url, subdataset_name = None, subdataset_bands = Some (b # bs)\<rparr>) =
       Inr (lit ''vrt:///vsicurl/'' @ url @ lit ''?bands='' @
            join (lit '','') (map decimal (b # bs)))
   \<and> join (lit '','') (map decimal [4, 3, 2]) = lit ''4,3,2''
   \<and> SdsParams url None (Some [4, 3, 2]) =
       Inr (lit ''vrt:///vsicurl/'' @ url @ lit ''?bands=4,3,2'')"
proof -
  assume lim: "list_all within_str_limit (b # bs)"
  have j: "join (lit '','') (map decimal [4, 3, 2]) = lit ''4,3,2''"
    by code_simp
  have "list_all within_str_limit [4, 3, 2]"
    by (simp add: within_str_limit_def int_max_str_digits_def digits.simps)
  then have "SdsParams url None (Some [4, 3, 2]) =
      Inr (lit ''vrt:///vsicurl/'' @ url @ lit ''?bands='' @
           join (lit '','') (map decimal [4, 3, 2]))"
    by (rule SdsParams_bands_only)
  with j have e: "SdsParams url None (Some [4, 3, 2]) =
      Inr (lit ''vrt:///vsicurl/'' @ url @ lit ''?bands=4,3,2'')"
    by simp
  show ?thesis
    using SdsParams_bands_only [OF lim, of url] SdsParams_name_bands [OF lim, of url c cs]
      attrs_post_init_input [of url None "Some (b # bs)"] j e
    by simp
qed

theorem bands_comma_joined_witness:
  "list_all within_str_limit [4, 3, 2]
   \<and> SdsParams (lit ''s3://bucket/a.tif'') None (Some [4, 3, 2]) =
       Inr (lit ''vrt:///vsicurl/s3://bucket/a.tif?bands=4,3,2'')
   \<and> SdsParams (lit ''s3://bucket/a.tif'') (Some (lit ''sd1'')) (Some [4, 3, 2]) =
       Inr (lit ''vrt:///vsicurl/s3://bucket/a.tif?sd_name=sd1&bands=4,3,2'')"
proof -
  have lim: "list_all within_str_limit [4, 3, 2]"
    by (simp add: within_str_limit_def int_max_str_digits_def digits.simps)
  have q: "quote_plus (lit ''sd1'') (lit '','') = Inr (lit ''sd1'')"
    by (rule quote_plus_unreserved) (simp add: ALWAYS_SAFE_def)
  from bands_comma_joined [OF lim, of "lit ''s3://bucket/a.tif''" "of_char CHR ''s''" "lit ''d1''"]
    lim q
  show ?thesis by simp
qed

text \<open>
  C4. With the name \<open>x\<close> and no bands, every base locator resolves to exactly
  \<open>vrt:///vsicurl/{base}?sd_name=x\<close>: the query string has no \<open>bands\<close> parameter. An
  empty band list counts as no bands.
\<close>

theorem name_only_locator:
  "SdsParams url (Some (lit ''x'')) None =
     Inr (lit ''vrt:///vsicurl/'' @ url @ lit ''?sd_name=x'')
   \<and> SdsParams url (Some (lit ''x'')) (Some []) =
     Inr (lit ''vrt:///vsicurl/'' @ url @ lit ''?sd_name=x'')"
proof -
  have q: "quote_plus (lit ''x'') (lit '','') = Inr (lit ''x'')"
    by (rule quote_plus_unreserved) (simp add: ALWAYS_SAFE_def)
  have "SdsParams url (Some (lit ''x'')) None =
      Inr (lit ''vrt:///vsicurl/'' @ url @ lit ''?sd_name=x'')"
    using SdsParams_name_only [of url "of_char CHR ''x''" "[]"] q by simp
  then show ?thesis
    by (simp add: SdsParams_empty_bands)
qed

text \<open>
  C5. Without a name and with the bands \<open>[5]\<close>, the reader options are exactly the
  dictionary with the one key \<open>subdataset_bands\<close> and the value \<open>[5]\<close>, a list of integers
  and not a string; there is no \<open>subdataset_name\<close> key. In general a non-empty band list is
  stored under \<open>subdataset_bands\<close> as it was given, whatever the name.
\<close>

theorem reader_options_bands:
  "ReaderParams None (Some [5]) = [(lit ''subdataset_bands'', IntListValue [5])]
   \<and> map_of (ReaderParams None (Some [5])) (lit ''subdataset_name'') = None
   \<and> ReaderParams None (Some (b # bs)) = [(lit ''subdataset_bands'', IntListValue (b # bs))]
   \<and> map_of (ReaderParams name (Some (b # bs))) (lit ''subdataset_bands'') =
       Some (IntListValue (b # bs))"
  by (simp add: ReaderParams_def split: option.splits)

text \<open>
  C7. The three copies of the rewriting, in the post-initialiser of \<open>CustomReader\<close>, in
  \<open>ItemAssetIdParams\<close> and in \<open>SdsParams\<close>, give the same locator for every base locator,
  optional name and optional band list, and fail together. For \<open>ItemAssetIdParams\<close> the
  base locator is the one it takes from the asset.
\<close>

theorem three_copies_agree:
  "map_sum id input
     (attrs_post_init \<lparr>input = url, subdataset_name = name, subdataset_bands = bands\<rparr>) =
     SdsParams url name bands
   \<and> ItemAssetIdParams (Map.empty(aid \<mapsto> \<lparr>href = url, absolute_href = None\<rparr>)) aid name bands =
     SdsParams url name bands
   \<and> ItemAssetIdParams (Map.empty(aid \<mapsto> \<lparr>href = h, absolute_href = Some (c # cs)\<rparr>)) aid
       name bands =
     SdsParams (c # cs) name bands"
  using attrs_post_init_input [of url name bands]
    ItemAssetIdParams_SdsParams
      [of "Map.empty(aid \<mapsto> \<lparr>href = url, absolute_href = None\<rparr>)" aid
          "\<lparr>href = url, absolute_href = None\<rparr>" name bands]
    ItemAssetIdParams_SdsParams
      [of "Map.empty(aid \<mapsto> \<lparr>href = h, absolute_href = Some (c # cs)\<rparr>)" aid
          "\<lparr>href = h, absolute_href = Some (c # cs)\<rparr>" name bands]
  by simp

text \<open>
  C9. An empty name and an empty band list are treated as an absent selector: the base
  locator is returned unchanged and the reader options are empty. More generally an empty
  name behaves as no name and an empty band list as no bands, in the locator resolver, in
  the reader-options builder and in the post-initialiser of \<open>CustomReader\<close>.
\<close>

theorem empty_is_absent:
  "SdsParams url (Some []) (Some []) = Inr url
   \<and> ReaderParams (Some []) (Some []) = []
   \<and> attrs_post_init \<lparr>input = url, subdataset_name = Some [], subdataset_bands = Some []\<rparr> =
       Inr \<lparr>input = url, subdataset_name = Some [], subdataset_bands = Some []\<rparr>
   \<and> SdsParams url (Some []) bands = SdsParams url None bands
   \<and> SdsParams url name (Some []) = SdsParams url name None
   \<and> ReaderParams (Some []) bands = ReaderParams None bands
   \<and> ReaderParams name (Some []) = ReaderParams name None"
  by (simp add: SdsParams_def ReaderParams_def attrs_post_init_def)

section \<open>No error on the selectors of a request\<close>



section \<open>Asset href resolution\<close>

text \<open>
  C6. For an asset of the item, the resolved href is the asset's absolute href when one
  is present, and the asset's plain href, unchanged, when there is none. An absolute href
  is \<open>None\<close> or a non-empty string: \<open>get_absolute_href()\<close> of the STAC library returns an
  href that it has made absolute, never the empty string (which \<open>a or b\<close> would treat as
  absent).
\<close>

theorem asset_href_resolution:
  "assets aid = Some a \<Longrightarrow> absolute_href a \<noteq> Some [] \<Longrightarrow>
     (absolute_href a = Some u \<longrightarrow> ItemAssetIdParams assets aid None None = Inr u)
   \<and> (absolute_href a = None \<longrightarrow> ItemAssetIdParams assets aid None None = Inr (href a))"
  by (cases u) (simp_all add: ItemAssetIdParams_SdsParams SdsParams_neither)

theorem asset_href_resolution_witness:
  "ItemAssetIdParams
     (Map.empty(lit ''data'' \<mapsto>
        \<lparr>href = lit ''./a.tif'', absolute_href = Some (lit ''https://x/a.tif'')\<rparr>))
     (lit ''data'') None None = Inr (lit ''https://x/a.tif'')
   \<and> ItemAssetIdParams
     (Map.empty(lit ''data'' \<mapsto> \<lparr>href = lit ''./a.tif'', absolute_href = None\<rparr>))
     (lit ''data'') None None = Inr (lit ''./a.tif'')"
  using asset_href_resolution
      [of "Map.empty(lit ''data'' \<mapsto>
             \<lparr>href = lit ''./a.tif'', absolute_href = Some (lit ''https://x/a.tif'')\<rparr>)"
          "lit ''data''"
          "\<lparr>href = lit ''./a.tif'', absolute_href = Some (lit ''https://x/a.tif'')\<rparr>"
          "lit ''https://x/a.tif''"]
    asset_href_resolution
      [of "Map.empty(lit ''data'' \<mapsto> \<lparr>href = lit ''./a.tif'', absolute_href = None\<rparr>)"
          "lit ''data''"
          "\<lparr>href = lit ''./a.tif'', absolute_href = None\<rparr>"]
  by simp

section \<open>The encodings applied by one request\<close>

text \<open>
  C8, as the code has it. For a selector with a non-empty name or a non-empty band list:
  a \<open>/dataset\<close> request builds no options bag and opens the locator rewritten by
  \<open>SdsParams\<close>; a request of an endpoint configured with \<open>ReaderParams\<close> builds a non-empty
  options bag, and \<open>CustomReader\<close>, constructed from that bag, then rewrites its locator
  into the same VRT locator. The locator is rewritten once on either path, and the options
  bag is an additional step of the second path, not an alternative to the rewriting. The
  rewriting yields a locator exactly for the selectors of a request: a name without
  surrogate code points and bands within the limit of the decimal conversion.
\<close>

theorem selector_encodings_per_request:
  "truthy name \<or> truthy bands \<Longrightarrow>
     \<not> bag_built (dataset_request url name bands)
   \<and> locator (dataset_request url name bands) = SdsParams url name bands
   \<and> bag_built (item_request url name bands)
   \<and> options_bag (item_request url name bands) = ReaderParams name bands
   \<and> locator (item_request url name bands) = SdsParams url name bands
   \<and> locator_rewritten url (dataset_request url name bands) =
       (\<not> has_surrogate name \<and> bands_within_limit bands)
   \<and> locator_rewritten url (item_request url name bands) =
       (\<not> has_surrogate name \<and> bands_within_limit bands)"
  using ReaderParams_nonempty [of name bands]
    locator_rewritten_SdsParams [of name bands url "[]"]
    locator_rewritten_SdsParams [of name bands url "ReaderParams name bands"]
  by (simp add: dataset_request_def item_request_def bag_built_def Let_def
      CustomReader_init_ReaderParams)

theorem selector_encodings_per_request_witness:
  "(truthy (Some (lit ''sd1'')) \<or> truthy (Some [1, 2 :: int]))
   \<and> \<not> has_surrogate (Some (lit ''sd1''))
   \<and> bands_within_limit (Some [1, 2])
   \<and> \<not> bag_built (dataset_request (lit ''s3://bucket/a.tif'') (Some (lit ''sd1'')) (Some [1, 2]))
   \<and> locator_rewritten (lit ''s3://bucket/a.tif'')
       (dataset_request (lit ''s3://bucket/a.tif'') (Some (lit ''sd1'')) (Some [1, 2]))
   \<and> bag_built (item_request (lit ''s3://bucket/a.tif'') (Some (lit ''sd1'')) (Some [1, 2]))
   \<and> locator_rewritten (lit ''s3://bucket/a.tif'')
       (item_request (lit ''s3://bucket/a.tif'') (Some (lit ''sd1'')) (Some [1, 2]))"
proof -
  have t: "truthy (Some (lit ''sd1'')) \<or> truthy (Some [1, 2 :: int])"
    by simp
  have s: "\<not> has_surrogate (Some (lit ''sd1''))"
    by (simp add: surrogate_def)
  have l: "bands_within_limit (Some [1, 2])"
    by (simp add: within_str_limit_def int_max_str_digits_def digits.simps)
  from selector_encodings_per_request [OF t, of "lit ''s3://bucket/a.tif''"] s t l
  show ?thesis by blast
qed

text \<open>
  The claim as stated fails: the request of a STAC item endpoint with the name \<open>sd1\<close>
  applies both encodings, the options bag and the rewritten locator.
\<close>

theorem item_request_both_encodings:
  "options_bag (item_request (lit ''s3://bucket/a.tif'') (Some (lit ''sd1'')) None) =
     [(lit ''subdataset_name'', StrValue (lit ''sd1''))]
   \<and> locator (item_request (lit ''s3://bucket/a.tif'') (Some (lit ''sd1'')) None) =
     Inr (lit ''vrt:///vsicurl/s3://bucket/a.tif?sd_name=sd1'')
   \<and> bag_built (item_request (lit ''s3://bucket/a.tif'') (Some (lit ''sd1'')) None)
   \<and> locator_rewritten (lit ''s3://bucket/a.tif'')
       (item_request (lit ''s3://bucket/a.tif'') (Some (lit ''sd1'')) None)"
  by code_simp

end
